theory Spec2Isabelle
  imports Complex_Main
begin

text \<open>
  A model of safe\_dataframe: \<open>Columns\<close> and \<open>BaseData\<close> of data.py, \<open>BaseTransform\<close>
  and \<open>Pipeline\<close> of transforms.py. The table engine (pandas), the validation engine
  (pandera) and the declarative-model base (pydantic) are not part of the repository;
  each is modelled by the operations the source calls on it. Exceptions are values of
  \<open>error\<close>, returned on the left of a sum. Where a Python name is taken in HOL or by
  another definition here, the method keeps its class as a prefix or gets a suffix:
  \<open>BaseData.__init__\<close> is \<open>BaseData_init\<close>, \<open>Pipeline.__call__\<close> is
  \<open>Pipeline_call\<close>, \<open>BaseData.transform\<close> is \<open>transform_data\<close>,
  \<open>Columns.columns\<close> is \<open>columns_attrs\<close>, and the attribute \<open>self.columns\<close> of a
  BaseData is \<open>columns_of\<close>.
\<close>

section \<open>The table engine, as the source consumes it\<close>

text \<open>
  The source works on pandas data frames. Only the operations it calls are modelled: a
  frame is the length of its index and its labelled columns, in order. A cell is missing
  (\<open>NA\<close>) or holds an integer or a string.
\<close>

datatype cell = NA | IntV int | StrV string

record dataframe =
  index_len :: nat
  df_columns :: "(string \<times> cell list) list"

datatype error =
  SchemaError
  | KeyError
  | ValidationError
  | AttributeError
  | ZeroDivisionError
  | Raised string

text \<open>\<open>data.columns\<close>: the column labels, in order.\<close>

definition column_names :: "dataframe \<Rightarrow> string list" where
  "column_names df = map fst (df_columns df)"

text \<open>\<open>data.empty\<close>: true when either axis has length zero.\<close>

definition empty :: "dataframe \<Rightarrow> bool" where
  "empty df = (index_len df = 0 \<or> df_columns df = [])"

text \<open>\<open>data.shape\<close>: rows and columns.\<close>

definition shape :: "dataframe \<Rightarrow> nat \<times> nat" where
  "shape df = (index_len df, length (df_columns df))"

text \<open>\<open>data.rename(columns={name: prefix + name for name in data.columns})\<close>.\<close>

definition rename_prefix :: "string \<Rightarrow> dataframe \<Rightarrow> dataframe" where
  "rename_prefix prefix df =
     df\<lparr>df_columns := map (\<lambda>(name, cells). (prefix @ name, cells)) (df_columns df)\<rparr>"

text \<open>
  \<open>data[names]\<close> with a list of labels: a frame of the named columns in the order of
  the list (every column carrying a label, when a label is repeated in the frame), over
  the same index; KeyError when a label is absent.
\<close>

definition getitem_list :: "dataframe \<Rightarrow> string list \<Rightarrow> error + dataframe" where
  "getitem_list df names =
     (if \<exists>n \<in> set names. n \<notin> set (column_names df) then Inl KeyError
      else Inr \<lparr>index_len = index_len df,
                df_columns = concat (map (\<lambda>n. filter (\<lambda>(m, cells). m = n) (df_columns df)) names)\<rparr>)"

text \<open>
  The value of a floating-point quotient of two counts. The finite quotient is kept
  exact (a rational); a zero divisor gives no exception in the engine's arithmetic but
  the IEEE values: 0/0 is not-a-number, k/0 is infinite.
\<close>

datatype ratio = Finite rat | NaN | PosInf

definition series_div :: "nat \<Rightarrow> nat \<Rightarrow> ratio" where
  "series_div k n =
     (if n = 0 then (if k = 0 then NaN else PosInf)
      else Finite (of_nat k / of_nat n))"

text \<open>\<open>frame.notna().sum(axis=0)\<close>: per column, the number of cells that are not missing.\<close>

definition notna_sum :: "dataframe \<Rightarrow> (string \<times> nat) list" where
  "notna_sum df = map (\<lambda>(name, cells). (name, length (filter (\<lambda>c. c \<noteq> NA) cells))) (df_columns df)"

section \<open>The validation engine, as the source consumes it\<close>

text \<open>
  A schema is built from column name to (type, nullability) declarations, as the tests do
  with \<open>pa.DataFrameSchema({name: pa.Column(type, nullable=...)})\<close>. Validating a frame
  raises SchemaError when a declared column is absent, holds a missing cell though not
  nullable, or holds a cell of another type.
\<close>

datatype dtype = DInt | DStr

record column_schema =
  col_dtype :: dtype
  nullable :: bool

record data_frame_schema =
  schema_columns :: "(string \<times> column_schema) list"

fun cell_has_dtype :: "dtype \<Rightarrow> cell \<Rightarrow> bool" where
  "cell_has_dtype t NA = True"
| "cell_has_dtype DInt (IntV i) = True"
| "cell_has_dtype DStr (StrV s) = True"
| "cell_has_dtype t c = False"

definition column_ok :: "dataframe \<Rightarrow> string \<times> column_schema \<Rightarrow> bool" where
  "column_ok df = (\<lambda>(name, col).
     (case map_of (df_columns df) name of
        None \<Rightarrow> False
      | Some cells \<Rightarrow>
          (nullable col \<or> NA \<notin> set cells) \<and> list_all (cell_has_dtype (col_dtype col)) cells))"

definition schema_validate :: "data_frame_schema \<Rightarrow> dataframe \<Rightarrow> error + dataframe" where
  "schema_validate schema df =
     (if list_all (column_ok df) (schema_columns schema) then Inr df else Inl SchemaError)"

section \<open>Interpreter state\<close>

text \<open>
  Two effects of the source are observable: object allocation (a new Columns instance has
  an identity no earlier object has) and \<open>warnings.warn\<close>. The state holds the next
  free identity and the warnings issued so far, each a category and a message.
\<close>

record pystate =
  next_id :: nat
  warnings :: "(string \<times> string) list"

definition warn :: "string \<Rightarrow> string \<Rightarrow> pystate \<Rightarrow> pystate" where
  "warn message category st = st\<lparr>warnings := warnings st @ [(category, message)]\<rparr>"

section \<open>data.py: Columns\<close>

text \<open>
  A concrete subclass of \<open>Columns\<close> declares its fields (each a string, with or without
  a default) and overrides \<open>get_data_schema\<close>, which reads the field values of the
  instance. An instance has an identity, its class and its field values in declaration
  order.
\<close>

record columns_class =
  columns_class_name :: string
  model_fields :: "(string \<times> string option) list"
  get_data_schema :: "(string \<times> string) list \<Rightarrow> data_frame_schema"

record columns =
  ident :: nat
  cls :: columns_class
  field_values :: "(string \<times> string) list"

text \<open>
  \<open>cls.model_validate(attrs)\<close> of the declarative-model base: every declared field
  takes its value from the mapping, or its default when the mapping has no such key;
  keys that are no field are ignored; a field with neither value nor default is a
  ValidationError. Success allocates a new instance.
\<close>

fun collect_fields :: "(string \<times> string option) list \<Rightarrow> (string \<times> string) list
    \<Rightarrow> (string \<times> string) list option" where
  "collect_fields [] attrs = Some []"
| "collect_fields ((name, dflt) # decls) attrs =
     (case (case map_of attrs name of Some v \<Rightarrow> Some v | None \<Rightarrow> dflt) of
        None \<Rightarrow> None
      | Some v \<Rightarrow>
          (case collect_fields decls attrs of
             None \<Rightarrow> None
           | Some rest \<Rightarrow> Some ((name, v) # rest)))"

definition model_validate :: "columns_class \<Rightarrow> (string \<times> string) list \<Rightarrow> pystate
    \<Rightarrow> (error + columns) \<times> pystate" where
  "model_validate c attrs st =
     (case collect_fields (model_fields c) attrs of
        None \<Rightarrow> (Inl ValidationError, st)
      | Some vals \<Rightarrow>
          (Inr \<lparr>ident = next_id st, cls = c, field_values = vals\<rparr>,
           st\<lparr>next_id := Suc (next_id st)\<rparr>))"

text \<open>\<open>cls()\<close>: construction with no argument, every field at its default.\<close>

definition Columns_init :: "columns_class \<Rightarrow> pystate \<Rightarrow> (error + columns) \<times> pystate" where
  "Columns_init c st = model_validate c [] st"

text \<open>The cached property \<open>data_schema\<close>: \<open>get_data_schema\<close> of the instance.\<close>

definition data_schema :: "columns \<Rightarrow> data_frame_schema" where
  "data_schema self = get_data_schema (cls self) (field_values self)"

definition dump_column_names :: "columns \<Rightarrow> (string \<times> string) list" where
  "dump_column_names self = field_values self"

definition set_prefix :: "columns \<Rightarrow> string \<Rightarrow> pystate \<Rightarrow> (error + columns) \<times> pystate" where
  "set_prefix self prefix st =
     (let columns = dump_column_names self;
          new_attrs = map (\<lambda>(name, val). (name, prefix @ val)) columns
      in model_validate (cls self) new_attrs st)"

definition validate_data :: "columns \<Rightarrow> dataframe \<Rightarrow> error + unit" where
  "validate_data self data =
     (case schema_validate (data_schema self) data of
        Inl e \<Rightarrow> Inl e
      | Inr validated \<Rightarrow> Inr ())"

definition columns_attrs :: "columns \<Rightarrow> string list" where
  "columns_attrs self = map fst (dump_column_names self)"

definition get_names :: "columns \<Rightarrow> string list" where
  "get_names self = map snd (dump_column_names self)"

section \<open>transforms.py\<close>

text \<open>
  A transform is a callable object: its class name and what calling it on a frame
  returns or raises. \<open>BaseTransform.__call__\<close> is the identity.
\<close>

record transform =
  class_name :: string
  call :: "dataframe \<Rightarrow> error + dataframe"

definition BaseTransform :: transform where
  "BaseTransform = \<lparr>class_name = ''BaseTransform'', call = (\<lambda>data. Inr data)\<rparr>"

text \<open>
  A Pipeline holds the tuple of its transforms and the \<open>verbose\<close> attribute. A call
  reports, besides what it returns or raises (\<open>outcome\<close>): the receiver after the call
  (\<open>receiver\<close>), the calls \<open>func(data)\<close> it made, each the position of \<open>func\<close> in the
  tuple and the frame passed (\<open>invoked\<close>), and the records given to the logger
  (\<open>logged\<close>).
\<close>

record pipeline =
  transforms :: "transform list"
  verbose :: int

datatype log_record = StartShape "nat \<times> nat" | ProducesShape string "nat \<times> nat"

record run =
  invoked :: "(nat \<times> dataframe) list"
  logged :: "log_record list"
  outcome :: "error + dataframe"

text \<open>
  The loop \<open>for func in self.transforms\<close>, from position \<open>i\<close> on: call, log when
  verbose, leave the loop when the result is empty.
\<close>

fun Pipeline_loop :: "int \<Rightarrow> nat \<Rightarrow> transform list \<Rightarrow> dataframe \<Rightarrow> run" where
  "Pipeline_loop v i [] data = \<lparr>invoked = [], logged = [], outcome = Inr data\<rparr>"
| "Pipeline_loop v i (func # rest) data =
     (case call func data of
        Inl e \<Rightarrow> \<lparr>invoked = [(i, data)], logged = [], outcome = Inl e\<rparr>
      | Inr data' \<Rightarrow>
          (let entry = (if v = 1 then [ProducesShape (class_name func) (shape data')] else [])
           in if empty data'
              then \<lparr>invoked = [(i, data)], logged = entry, outcome = Inr data'\<rparr>
              else (let r = Pipeline_loop v (Suc i) rest data'
                    in \<lparr>invoked = (i, data) # invoked r, logged = entry @ logged r,
                        outcome = outcome r\<rparr>)))"

definition Pipeline_call :: "pipeline \<Rightarrow> dataframe \<Rightarrow> pipeline \<times> run" where
  "Pipeline_call self data =
     (let start = (if verbose self = 1 then [StartShape (shape data)] else []);
          r = Pipeline_loop (verbose self) 0 (transforms self) data
      in (self, r\<lparr>logged := start @ logged r\<rparr>))"

text \<open>\<open>Pipeline(*transforms)\<close>; \<open>verbose\<close> is the class attribute, 0.\<close>

definition Pipeline :: "transform list \<Rightarrow> pipeline" where
  "Pipeline ts = \<lparr>transforms = ts, verbose = 0\<rparr>"

text \<open>A Pipeline where a transform is expected: the callable it is.\<close>

definition Pipeline_transform :: "pipeline \<Rightarrow> transform" where
  "Pipeline_transform p =
     \<lparr>class_name = ''Pipeline'', call = (\<lambda>data. outcome (snd (Pipeline_call p data)))\<rparr>"

section \<open>data.py: BaseData\<close>

text \<open>
  A concrete subclass of \<open>BaseData\<close> has a name and may set \<open>_column_class\<close>. An
  instance holds its class, \<open>self.columns\<close> and \<open>self._data\<close>.
\<close>

record basedata_class =
  data_class_name :: string
  column_class :: "columns_class option"

record basedata =
  data_cls :: basedata_class
  columns_of :: columns
  data :: dataframe

definition default_columns :: "basedata_class \<Rightarrow> pystate \<Rightarrow> (error + columns) \<times> pystate" where
  "default_columns c st =
     (case column_class c of
        None \<Rightarrow> (Inl AttributeError, st)
      | Some cc \<Rightarrow> Columns_init cc st)"

definition BaseData_init :: "basedata_class \<Rightarrow> dataframe \<Rightarrow> columns option \<Rightarrow> bool \<Rightarrow> pystate
    \<Rightarrow> (error + basedata) \<times> pystate" where
  "BaseData_init c frame columns skip_check st =
     (case (case columns of None \<Rightarrow> default_columns c st | Some given \<Rightarrow> (Inr given, st)) of
        (Inl e, st1) \<Rightarrow> (Inl e, st1)
      | (Inr cols, st1) \<Rightarrow>
          (if \<not> skip_check
           then (case validate_data cols frame of
                   Inl e \<Rightarrow> (Inl e, st1)
                 | Inr u \<Rightarrow> (Inr \<lparr>data_cls = c, columns_of = cols, data = frame\<rparr>, st1))
           else (Inr \<lparr>data_cls = c, columns_of = cols, data = frame\<rparr>,
                 warn (''Data check skipped '' @ data_class_name c @ ''.'') ''UserWarning'' st1)))"

text \<open>
  \<open>from_dataframe(data, columns, transform, **kwargs)\<close>; the only keyword the
  constructor takes besides \<open>columns\<close> is \<open>skip_check\<close>, so \<open>kwargs\<close> is that
  keyword, given or not.
\<close>

definition from_dataframe :: "basedata_class \<Rightarrow> dataframe \<Rightarrow> columns option \<Rightarrow> transform option
    \<Rightarrow> bool option \<Rightarrow> pystate \<Rightarrow> (error + basedata) \<times> pystate" where
  "from_dataframe c frame columns transform kwargs st =
     (case (case transform of None \<Rightarrow> Inr frame | Some t \<Rightarrow> call t frame) of
        Inl e \<Rightarrow> (Inl e, st)
      | Inr frame' \<Rightarrow>
          (case (case columns of None \<Rightarrow> default_columns c st | Some given \<Rightarrow> (Inr given, st)) of
             (Inl e, st1) \<Rightarrow> (Inl e, st1)
           | (Inr cols, st1) \<Rightarrow>
               BaseData_init c frame' (Some cols)
                 (case kwargs of None \<Rightarrow> False | Some skip_check \<Rightarrow> skip_check) st1))"

definition new_data :: "basedata \<Rightarrow> dataframe \<Rightarrow> pystate \<Rightarrow> (error + basedata) \<times> pystate" where
  "new_data self frame st = from_dataframe (data_cls self) frame (Some (columns_of self)) None None st"

definition transform_data :: "basedata \<Rightarrow> transform \<Rightarrow> pystate \<Rightarrow> (error + basedata) \<times> pystate" where
  "transform_data self t st =
     from_dataframe (data_cls self) (data self) (Some (columns_of self)) (Some t) None st"

definition prefix_columns :: "basedata \<Rightarrow> string \<Rightarrow> pystate \<Rightarrow> (error + basedata) \<times> pystate" where
  "prefix_columns self prefix st =
     (let new = rename_prefix prefix (data self)
      in case set_prefix (columns_of self) prefix st of
           (Inl e, st1) \<Rightarrow> (Inl e, st1)
         | (Inr new_columns, st1) \<Rightarrow>
             from_dataframe (data_cls self) new (Some new_columns) None None st1)"

definition get_values_presence :: "basedata \<Rightarrow> string list \<Rightarrow> error + (string \<times> ratio) list" where
  "get_values_presence self names =
     (case getitem_list (data self) names of
        Inl e \<Rightarrow> Inl e
      | Inr selected \<Rightarrow>
          Inr (map (\<lambda>(name, k). (name, series_div k (index_len (data self)))) (notna_sum selected)))"

definition truncate_columns :: "basedata \<Rightarrow> pystate \<Rightarrow> (error + basedata) \<times> pystate" where
  "truncate_columns self st =
     (case getitem_list (data self) (get_names (columns_of self)) of
        Inl e \<Rightarrow> (Inl e, st)
      | Inr selected \<Rightarrow> new_data self selected st)"

section \<open>The fixtures of tests/test\_data.py\<close>

text \<open>
  \<open>TestColumns\<close>: fields \<open>column_a = "Name A"\<close> and \<open>column_b = "Name B"\<close>; the
  schema is the dict \<open>{self.column_a: Column(str, nullable=False), self.column_b:
  Column(int, nullable=False)}\<close>, in which a repeated key keeps its last value.
\<close>

definition field_of :: "(string \<times> string) list \<Rightarrow> string \<Rightarrow> string" where
  "field_of vals name = (case map_of vals name of Some v \<Rightarrow> v | None \<Rightarrow> [])"

definition TestColumns_schema :: "(string \<times> string) list \<Rightarrow> data_frame_schema" where
  "TestColumns_schema vals =
     (let a = field_of vals ''column_a''; b = field_of vals ''column_b''
      in \<lparr>schema_columns =
           (if a = b then [(b, \<lparr>col_dtype = DInt, nullable = False\<rparr>)]
            else [(a, \<lparr>col_dtype = DStr, nullable = False\<rparr>),
                  (b, \<lparr>col_dtype = DInt, nullable = False\<rparr>)])\<rparr>)"

definition TestColumns :: columns_class where
  "TestColumns =
     \<lparr>columns_class_name = ''TestColumns'',
      model_fields = [(''column_a'', Some ''Name A''), (''column_b'', Some ''Name B'')],
      get_data_schema = TestColumns_schema\<rparr>"

definition TestData :: basedata_class where
  "TestData = \<lparr>data_class_name = ''TestData'', column_class = Some TestColumns\<rparr>"

text \<open>\<open>columns = TestColumns()\<close>, the first object allocated, and the state after it.\<close>

definition test_columns :: columns where
  "test_columns =
     \<lparr>ident = 0, cls = TestColumns,
      field_values = [(''column_a'', ''Name A''), (''column_b'', ''Name B'')]\<rparr>"

definition test_state :: pystate where
  "test_state = \<lparr>next_id = 1, warnings = []\<rparr>"

text \<open>The frames of the tests: the valid one, and the one with a missing value.\<close>

definition frame_abc :: dataframe where
  "frame_abc =
     \<lparr>index_len = 3,
      df_columns = [(''Name A'', [StrV ''a'', StrV ''b'', StrV ''c'']),
                    (''Name B'', [IntV 1, IntV 2, IntV 3])]\<rparr>"

definition frame_na :: dataframe where
  "frame_na =
     \<lparr>index_len = 3,
      df_columns = [(''Name A'', [StrV ''a'', StrV ''b'', StrV ''c'']),
                    (''Name B'', [IntV 1, IntV 2, NA])]\<rparr>"

text \<open>Further frames: without \<open>Name B\<close>, with a column more, with no row, with one row.\<close>

definition frame_only_a :: dataframe where
  "frame_only_a =
     \<lparr>index_len = 3, df_columns = [(''Name A'', [StrV ''a'', StrV ''b'', StrV ''c''])]\<rparr>"

definition frame_extra :: dataframe where
  "frame_extra =
     \<lparr>index_len = 3,
      df_columns = [(''Extra'', [IntV 7, IntV 8, IntV 9]),
                    (''Name B'', [IntV 1, IntV 2, IntV 3]),
                    (''Name A'', [StrV ''a'', StrV ''b'', StrV ''c''])]\<rparr>"

definition frame_no_rows :: dataframe where
  "frame_no_rows = \<lparr>index_len = 0, df_columns = [(''Name A'', []), (''Name B'', [])]\<rparr>"

definition frame_one_row :: dataframe where
  "frame_one_row =
     \<lparr>index_len = 1, df_columns = [(''Name A'', [StrV ''a'']), (''Name B'', [IntV 1])]\<rparr>"

text \<open>
  Transforms for the scenarios: one that returns no row (a filter that keeps nothing),
  one that returns a fixed one-row frame whatever it is given, and the test's
  \<open>FillNaTransform\<close> (\<open>data.fillna(0)\<close>).
\<close>

definition DropAll :: transform where
  "DropAll =
     \<lparr>class_name = ''DropAll'',
      call = (\<lambda>data. Inr \<lparr>index_len = 0, df_columns = map (\<lambda>(name, cells). (name, [])) (df_columns data)\<rparr>)\<rparr>"

definition FixedRow :: transform where
  "FixedRow = \<lparr>class_name = ''FixedRow'', call = (\<lambda>data. Inr frame_one_row)\<rparr>"

definition FillNaTransform :: transform where
  "FillNaTransform =
     \<lparr>class_name = ''FillNaTransform'',
      call = (\<lambda>data. Inr (data\<lparr>df_columns :=
                map (\<lambda>(name, cells). (name, map (\<lambda>c. if c = NA then IntV 0 else c) cells))
                  (df_columns data)\<rparr>))\<rparr>"

section \<open>Notions the properties are stated with\<close>

text \<open>
  An instance of the declarative-model base holds exactly the declared fields of its
  class, in declaration order, and a class declares a field name once.
\<close>

definition Columns_inv :: "columns \<Rightarrow> bool" where
  "Columns_inv self =
     (map fst (field_values self) = map fst (model_fields (cls self))
      \<and> distinct (map fst (model_fields (cls self))))"

text \<open>A frame with unique column labels, every column as long as the index.\<close>

definition wf_dataframe :: "dataframe \<Rightarrow> bool" where
  "wf_dataframe df =
     (distinct (column_names df)
      \<and> list_all (\<lambda>col. length (snd col) = index_len df) (df_columns df))"

text \<open>The cells of the column labelled \<open>name\<close>, and how many of them are not missing.\<close>

definition cells_of :: "dataframe \<Rightarrow> string \<Rightarrow> cell list" where
  "cells_of df name = (case map_of (df_columns df) name of Some cells \<Rightarrow> cells | None \<Rightarrow> [])"

definition notna_count :: "dataframe \<Rightarrow> string \<Rightarrow> nat" where
  "notna_count df name = length (filter (\<lambda>c. c \<noteq> NA) (cells_of df name))"

text \<open>
  The columns of the frame that carry the physical names of \<open>self.columns\<close>, in the
  order of the names, over the index of the frame.
\<close>

definition truncated :: "basedata \<Rightarrow> dataframe" where
  "truncated self =
     \<lparr>index_len = index_len (data self),
      df_columns = map (\<lambda>n. (n, cells_of (data self) n)) (get_names (columns_of self))\<rparr>"

text \<open>
  The frame reached by calling the transforms in order, when every call returns a frame
  that is not empty.
\<close>

fun run_nonempty :: "transform list \<Rightarrow> dataframe \<Rightarrow> dataframe option" where
  "run_nonempty [] frame = Some frame"
| "run_nonempty (func # rest) frame =
     (case call func frame of
        Inl e \<Rightarrow> None
      | Inr frame' \<Rightarrow> if empty frame' then None else run_nonempty rest frame')"

section \<open>Columns: prefixing and the round trip through the dump\<close>

lemma collect_fields_pointwise:
  "map fst vals = map fst decls \<Longrightarrow> \<forall>(n, v) \<in> set vals. map_of attrs n = Some v \<Longrightarrow>
   collect_fields decls attrs = Some vals"
proof (induction decls arbitrary: vals)
  case Nil
  then show ?case by simp
next
  case (Cons d decls)
  obtain name dflt where d: "d = (name, dflt)" by (cases d)
  from Cons.prems(1) obtain v rest where vals: "vals = (name, v) # rest"
    and rest: "map fst rest = map fst decls"
    by (cases vals) (auto simp: d)
  have "map_of attrs name = Some v" using Cons.prems(2) vals by simp
  moreover have "collect_fields decls attrs = Some rest"
    using Cons.IH [OF rest] Cons.prems(2) vals by simp
  ultimately show ?case by (simp add: d vals)
qed

lemma collect_fields_own:
  assumes "map fst vals = map fst decls" "distinct (map fst decls)"
  shows "collect_fields decls vals = Some vals"
proof (rule collect_fields_pointwise [OF assms(1)])
  have "distinct (map fst vals)" using assms by simp
  then show "\<forall>(n, v) \<in> set vals. map_of vals n = Some v" by auto
qed

lemma model_validate_own:
  assumes "map fst vals = map fst (model_fields c)" "distinct (map fst (model_fields c))"
  shows "model_validate c vals st =
     (Inr \<lparr>ident = next_id st, cls = c, field_values = vals\<rparr>, st\<lparr>next_id := Suc (next_id st)\<rparr>)"
  by (simp add: model_validate_def collect_fields_own [OF assms])

text \<open>
  Claim C3. For every Columns instance (holding the declared fields of its class) and
  every prefix, \<open>set_prefix\<close> succeeds and returns a newly allocated instance of the
  same class: its identity is the next free one, so it differs from the receiver's; every
  physical name is the prefix followed by the receiver's name, in the same order; the
  field names are the receiver's. The receiver is passed by value and is not part of
  what the call returns or of the state it changes, which is the allocation counter
  only: it is as it was.
\<close>

theorem set_prefix_prepends:
  assumes "Columns_inv self" and "ident self < next_id st"
  shows "\<exists>new. set_prefix self prefix st = (Inr new, st\<lparr>next_id := Suc (next_id st)\<rparr>)
           \<and> cls new = cls self
           \<and> get_names new = map (\<lambda>val. prefix @ val) (get_names self)
           \<and> columns_attrs new = columns_attrs self
           \<and> Columns_inv new
           \<and> ident new \<noteq> ident self"
proof -
  let ?vals = "map (\<lambda>(name, val). (name, prefix @ val)) (field_values self)"
  have keys: "map fst ?vals = map fst (model_fields (cls self))"
    using assms(1) by (simp add: Columns_inv_def case_prod_unfold comp_def)
  have dist: "distinct (map fst (model_fields (cls self)))"
    using assms(1) by (simp add: Columns_inv_def)
  have "set_prefix self prefix st =
      (Inr \<lparr>ident = next_id st, cls = cls self, field_values = ?vals\<rparr>,
       st\<lparr>next_id := Suc (next_id st)\<rparr>)"
    by (simp add: set_prefix_def dump_column_names_def model_validate_own [OF keys dist])
  moreover have "map snd ?vals = map (\<lambda>val. prefix @ val) (map snd (field_values self))"
    by (simp add: case_prod_unfold comp_def)
  moreover have "map fst ?vals = map fst (field_values self)"
    by (simp add: case_prod_unfold comp_def)
  ultimately show ?thesis
    using assms keys dist
    by (simp add: get_names_def columns_attrs_def dump_column_names_def Columns_inv_def)
qed

lemma test_columns_inv: "Columns_inv test_columns"
  by (simp add: Columns_inv_def test_columns_def TestColumns_def)

theorem set_prefix_prepends_witness:
  "Columns_inv test_columns \<and> ident test_columns < next_id test_state \<and>
   (\<exists>new. set_prefix test_columns ''left_'' test_state = (Inr new, test_state\<lparr>next_id := Suc (next_id test_state)\<rparr>)
           \<and> cls new = cls test_columns
           \<and> get_names new = [''left_Name A'', ''left_Name B'']
           \<and> columns_attrs new = [''column_a'', ''column_b'']
           \<and> Columns_inv new
           \<and> ident new \<noteq> ident test_columns)"
proof -
  have a: "Columns_inv test_columns" by (rule test_columns_inv)
  have b: "ident test_columns < next_id test_state"
    by (simp add: test_columns_def test_state_def)
  have names: "get_names test_columns = [''Name A'', ''Name B'']"
    by (simp add: get_names_def dump_column_names_def test_columns_def)
  have attrs: "columns_attrs test_columns = [''column_a'', ''column_b'']"
    by (simp add: columns_attrs_def dump_column_names_def test_columns_def)
  show ?thesis
    using a b set_prefix_prepends [OF a b, of "''left_''"] by (simp add: names attrs)
qed

text \<open>
  Claim C8. For every Columns instance, \<open>model_validate\<close> of its class on its own
  \<open>dump_column_names()\<close> succeeds, and the instance built has the same physical names
  (indeed the same dump) and the same class.
\<close>

theorem dump_column_names_round_trip:
  assumes "Columns_inv self"
  shows "\<exists>new. model_validate (cls self) (dump_column_names self) st =
              (Inr new, st\<lparr>next_id := Suc (next_id st)\<rparr>)
           \<and> get_names new = get_names self
           \<and> dump_column_names new = dump_column_names self
           \<and> cls new = cls self"
proof -
  have "model_validate (cls self) (field_values self) st =
      (Inr \<lparr>ident = next_id st, cls = cls self, field_values = field_values self\<rparr>,
       st\<lparr>next_id := Suc (next_id st)\<rparr>)"
    using assms by (intro model_validate_own) (simp_all add: Columns_inv_def)
  then show ?thesis
    by (simp add: dump_column_names_def get_names_def)
qed

theorem dump_column_names_round_trip_witness:
  "Columns_inv test_columns \<and>
   (\<exists>new. model_validate TestColumns [(''column_a'', ''Name A''), (''column_b'', ''Name B'')] test_state =
              (Inr new, test_state\<lparr>next_id := Suc (next_id test_state)\<rparr>)
           \<and> get_names new = [''Name A'', ''Name B''])"
proof -
  have a: "Columns_inv test_columns" by (rule test_columns_inv)
  have names: "get_names test_columns = [''Name A'', ''Name B'']"
    by (simp add: get_names_def dump_column_names_def test_columns_def)
  have d: "dump_column_names test_columns = [(''column_a'', ''Name A''), (''column_b'', ''Name B'')]"
    by (simp add: dump_column_names_def test_columns_def)
  have c: "cls test_columns = TestColumns" by (simp add: test_columns_def)
  show ?thesis
    using a dump_column_names_round_trip [OF a, of test_state] by (auto simp: names d c)
qed

section \<open>BaseData: construction\<close>

lemma validate_data_cases:
  "validate_data cols frame =
     (if list_all (column_ok frame) (schema_columns (data_schema cols)) then Inr () else Inl SchemaError)"
  by (simp add: validate_data_def schema_validate_def)

lemma column_ok_violation:
  assumes "name \<notin> set (column_names frame)
           \<or> (\<exists>cells. map_of (df_columns frame) name = Some cells
                \<and> ((\<not> nullable col \<and> NA \<in> set cells)
                    \<or> (\<exists>x \<in> set cells. \<not> cell_has_dtype (col_dtype col) x)))"
  shows "\<not> column_ok frame (name, col)"
  using assms
proof
  assume "name \<notin> set (column_names frame)"
  then have "map_of (df_columns frame) name = None"
    by (simp add: column_names_def map_of_eq_None_iff)
  then show ?thesis by (simp add: column_ok_def)
next
  assume "\<exists>cells. map_of (df_columns frame) name = Some cells
                \<and> ((\<not> nullable col \<and> NA \<in> set cells)
                    \<or> (\<exists>x \<in> set cells. \<not> cell_has_dtype (col_dtype col) x))"
  then show ?thesis by (auto simp: column_ok_def list_all_iff)
qed

lemma validate_data_violation:
  assumes "(name, col) \<in> set (schema_columns (data_schema cols))"
    and "name \<notin> set (column_names frame)
           \<or> (\<exists>cells. map_of (df_columns frame) name = Some cells
                \<and> ((\<not> nullable col \<and> NA \<in> set cells)
                    \<or> (\<exists>x \<in> set cells. \<not> cell_has_dtype (col_dtype col) x)))"
  shows "validate_data cols frame = Inl SchemaError"
proof -
  have "\<not> column_ok frame (name, col)" by (rule column_ok_violation [OF assms(2)])
  with assms(1) have "\<not> list_all (column_ok frame) (schema_columns (data_schema cols))"
    by (auto simp: list_all_iff)
  then show ?thesis by (simp add: validate_data_cases)
qed

text \<open>
  Claim C1. Constructing a BaseData from a frame and a Columns instance: with
  \<open>skip_check\<close> false, when a column the schema of the instance declares is absent
  from the frame, or holds a missing value though not nullable, or holds a value of
  another type, the construction raises SchemaError and leaves the state as it was.
  With \<open>skip_check\<close> true the construction of the same frame succeeds, the frame
  stored as given, and the one effect is a UserWarning whose message names the concrete
  subclass.
\<close>

theorem BaseData_init_check:
  "((name, col) \<in> set (schema_columns (data_schema cols)) \<longrightarrow>
      (name \<notin> set (column_names frame)
       \<or> (\<exists>cells. map_of (df_columns frame) name = Some cells
            \<and> ((\<not> nullable col \<and> NA \<in> set cells)
                \<or> (\<exists>x \<in> set cells. \<not> cell_has_dtype (col_dtype col) x)))) \<longrightarrow>
      BaseData_init c frame (Some cols) False st = (Inl SchemaError, st))
   \<and> BaseData_init c frame (Some cols) True st =
       (Inr \<lparr>data_cls = c, columns_of = cols, data = frame\<rparr>,
        st\<lparr>warnings := warnings st
              @ [(''UserWarning'', ''Data check skipped '' @ data_class_name c @ ''.'')]\<rparr>)"
proof (intro conjI impI)
  assume "(name, col) \<in> set (schema_columns (data_schema cols))"
    and "name \<notin> set (column_names frame)
       \<or> (\<exists>cells. map_of (df_columns frame) name = Some cells
            \<and> ((\<not> nullable col \<and> NA \<in> set cells)
                \<or> (\<exists>x \<in> set cells. \<not> cell_has_dtype (col_dtype col) x)))"
  then have "validate_data cols frame = Inl SchemaError" by (rule validate_data_violation)
  then show "BaseData_init c frame (Some cols) False st = (Inl SchemaError, st)"
    by (simp add: BaseData_init_def)
next
  show "BaseData_init c frame (Some cols) True st =
       (Inr \<lparr>data_cls = c, columns_of = cols, data = frame\<rparr>,
        st\<lparr>warnings := warnings st
              @ [(''UserWarning'', ''Data check skipped '' @ data_class_name c @ ''.'')]\<rparr>)"
    by (simp add: BaseData_init_def warn_def)
qed

lemma test_columns_schema:
  "schema_columns (data_schema test_columns) =
     [(''Name A'', \<lparr>col_dtype = DStr, nullable = False\<rparr>),
      (''Name B'', \<lparr>col_dtype = DInt, nullable = False\<rparr>)]"
  by (simp add: data_schema_def test_columns_def TestColumns_def TestColumns_schema_def
      field_of_def)

theorem BaseData_init_check_witness:
  "(''Name B'', \<lparr>col_dtype = DInt, nullable = False\<rparr>) \<in> set (schema_columns (data_schema test_columns))
   \<and> ''Name B'' \<notin> set (column_names frame_only_a)
   \<and> BaseData_init TestData frame_only_a (Some test_columns) False test_state = (Inl SchemaError, test_state)
   \<and> BaseData_init TestData frame_only_a (Some test_columns) True test_state =
       (Inr \<lparr>data_cls = TestData, columns_of = test_columns, data = frame_only_a\<rparr>,
        \<lparr>next_id = 1, warnings = [(''UserWarning'', ''Data check skipped TestData.'')]\<rparr>)"
proof -
  have a: "(''Name B'', \<lparr>col_dtype = DInt, nullable = False\<rparr>) \<in> set (schema_columns (data_schema test_columns))"
    by (simp add: test_columns_schema)
  have b: "''Name B'' \<notin> set (column_names frame_only_a)"
    by (simp add: column_names_def frame_only_a_def)
  have n: "data_class_name TestData = ''TestData''" by (simp add: TestData_def)
  show ?thesis
    using a b
      BaseData_init_check [of "''Name B''" "\<lparr>col_dtype = DInt, nullable = False\<rparr>" test_columns
        frame_only_a TestData test_state]
    by (simp add: n test_state_def)
qed

section \<open>Pipeline\<close>

lemma Pipeline_loop_stop:
  "call f frame = Inr e \<Longrightarrow> empty e \<Longrightarrow>
   outcome (Pipeline_loop v i (f # rest) frame) = Inr e
   \<and> invoked (Pipeline_loop v i (f # rest) frame) = [(i, frame)]"
  by simp

lemma Pipeline_loop_prefix:
  "run_nonempty pre frame = Some mid \<Longrightarrow>
   outcome (Pipeline_loop v i (pre @ rest) frame) = outcome (Pipeline_loop v (i + length pre) rest mid)
   \<and> (\<exists>tr. map fst tr = [i ..< i + length pre]
         \<and> invoked (Pipeline_loop v i (pre @ rest) frame) =
             tr @ invoked (Pipeline_loop v (i + length pre) rest mid))"
proof (induction pre arbitrary: i frame)
  case Nil
  then show ?case by simp
next
  case (Cons f pre)
  from Cons.prems obtain frame' where f: "call f frame = Inr frame'" and ne: "\<not> empty frame'"
    and r: "run_nonempty pre frame' = Some mid"
    by (auto split: sum.splits if_splits)
  from Cons.IH [OF r, of "Suc i"] obtain tr where
    out: "outcome (Pipeline_loop v (Suc i) (pre @ rest) frame') =
          outcome (Pipeline_loop v (Suc i + length pre) rest mid)"
    and idx: "map fst tr = [Suc i ..< Suc i + length pre]"
    and inv: "invoked (Pipeline_loop v (Suc i) (pre @ rest) frame') =
          tr @ invoked (Pipeline_loop v (Suc i + length pre) rest mid)"
    by blast
  have upt: "[i ..< i + length (f # pre)] = i # [Suc i ..< Suc i + length pre]"
    by (subst upt_rec) simp
  have "map fst ((i, frame) # tr) = [i ..< i + length (f # pre)]"
    using idx upt by simp
  moreover have "invoked (Pipeline_loop v i ((f # pre) @ rest) frame) =
      ((i, frame) # tr) @ invoked (Pipeline_loop v (i + length (f # pre)) rest mid)"
    using f ne inv by (simp add: Let_def)
  moreover have "outcome (Pipeline_loop v i ((f # pre) @ rest) frame) =
      outcome (Pipeline_loop v (i + length (f # pre)) rest mid)"
    using f ne out by (simp add: Let_def)
  ultimately show ?case by blast
qed

lemma Pipeline_call_outcome:
  "outcome (snd (Pipeline_call p frame)) = outcome (Pipeline_loop (verbose p) 0 (transforms p) frame)"
  "invoked (snd (Pipeline_call p frame)) = invoked (Pipeline_loop (verbose p) 0 (transforms p) frame)"
  by (simp_all add: Pipeline_call_def Let_def)

text \<open>
  Claim C2. For all transforms \<open>A\<close>, \<open>B\<close> and every frame \<open>t\<close>: when \<open>A(t)\<close> is
  a frame with no row, \<open>Pipeline(A, B)(t)\<close> returns that very frame and the only call
  made is \<open>A(t)\<close>, so \<open>B\<close> is not applied. More generally, for a Pipeline whose
  transforms are \<open>pre\<close>, then \<open>f\<close>, then \<open>post\<close>: when the transforms of \<open>pre\<close>
  each return a frame that is not empty, reaching \<open>mid\<close>, and \<open>f(mid)\<close> is empty (the
  engine's test, which a frame with no row passes), the Pipeline returns \<open>f(mid)\<close>, and
  the calls it made are those at positions \<open>0\<close> to \<open>length pre\<close>, the last of them
  \<open>f(mid)\<close>: no transform of \<open>post\<close> is run.
\<close>

theorem Pipeline_stops_at_empty:
  "(call A t = Inr e \<longrightarrow> index_len e = 0 \<longrightarrow>
      snd (Pipeline_call (Pipeline [A, B]) t) =
        \<lparr>invoked = [(0, t)], logged = [], outcome = Inr e\<rparr>)
   \<and> (transforms p = pre @ f # post \<longrightarrow> run_nonempty pre t = Some mid \<longrightarrow>
      call f mid = Inr e \<longrightarrow> empty e \<longrightarrow>
        outcome (snd (Pipeline_call p t)) = Inr e
        \<and> map fst (invoked (snd (Pipeline_call p t))) = [0 ..< Suc (length pre)]
        \<and> last (invoked (snd (Pipeline_call p t))) = (length pre, mid))"
proof (intro conjI impI)
  assume "call A t = Inr e" "index_len e = 0"
  then show "snd (Pipeline_call (Pipeline [A, B]) t) =
        \<lparr>invoked = [(0, t)], logged = [], outcome = Inr e\<rparr>"
    by (simp add: Pipeline_call_def Pipeline_def empty_def)
next
  assume p: "transforms p = pre @ f # post" and pre: "run_nonempty pre t = Some mid"
    and f: "call f mid = Inr e" and e: "empty e"
  note stop = Pipeline_loop_stop [OF f e, of "verbose p" "0 + length pre" post]
  from Pipeline_loop_prefix [OF pre, of "verbose p" 0 "f # post"] obtain tr where
    out: "outcome (Pipeline_loop (verbose p) 0 (pre @ f # post) t) =
          outcome (Pipeline_loop (verbose p) (0 + length pre) (f # post) mid)"
    and idx: "map fst tr = [0 ..< 0 + length pre]"
    and inv: "invoked (Pipeline_loop (verbose p) 0 (pre @ f # post) t) =
          tr @ invoked (Pipeline_loop (verbose p) (0 + length pre) (f # post) mid)"
    by blast
  have all: "invoked (snd (Pipeline_call p t)) = tr @ [(length pre, mid)]"
    using stop inv by (simp add: Pipeline_call_outcome p)
  show "outcome (snd (Pipeline_call p t)) = Inr e"
    using stop out by (simp add: Pipeline_call_outcome p)
  show "map fst (invoked (snd (Pipeline_call p t))) = [0 ..< Suc (length pre)]"
    using idx by (simp add: all)
  show "last (invoked (snd (Pipeline_call p t))) = (length pre, mid)"
    by (simp add: all)
qed

theorem Pipeline_stops_at_empty_witness:
  "call DropAll frame_abc = Inr (frame_no_rows) \<and> index_len frame_no_rows = 0
   \<and> snd (Pipeline_call (Pipeline [DropAll, FixedRow]) frame_abc) =
        \<lparr>invoked = [(0, frame_abc)], logged = [], outcome = Inr frame_no_rows\<rparr>
   \<and> transforms (Pipeline [BaseTransform, DropAll, FixedRow]) = [BaseTransform] @ DropAll # [FixedRow]
   \<and> run_nonempty [BaseTransform] frame_abc = Some frame_abc
   \<and> empty frame_no_rows
   \<and> outcome (snd (Pipeline_call (Pipeline [BaseTransform, DropAll, FixedRow]) frame_abc)) = Inr frame_no_rows
   \<and> map fst (invoked (snd (Pipeline_call (Pipeline [BaseTransform, DropAll, FixedRow]) frame_abc))) = [0, 1]"
proof -
  have a: "call DropAll frame_abc = Inr frame_no_rows"
    by (simp add: DropAll_def frame_abc_def frame_no_rows_def)
  have b: "index_len frame_no_rows = 0" by (simp add: frame_no_rows_def)
  have c: "transforms (Pipeline [BaseTransform, DropAll, FixedRow]) = [BaseTransform] @ DropAll # [FixedRow]"
    by (simp add: Pipeline_def)
  have d: "run_nonempty [BaseTransform] frame_abc = Some frame_abc"
    by (simp add: BaseTransform_def empty_def frame_abc_def)
  have e: "empty frame_no_rows" by (simp add: empty_def frame_no_rows_def)
  have u: "[0 ..< Suc (length [BaseTransform])] = [0, 1]" by (simp add: upt_rec)
  show ?thesis
    using a b c d e
      Pipeline_stops_at_empty [of DropAll frame_abc frame_no_rows FixedRow
        "Pipeline [BaseTransform, DropAll, FixedRow]" "[BaseTransform]" DropAll "[FixedRow]" frame_abc]
    by (simp add: u)
qed

text \<open>
  Claim C10. A Pipeline of no transform returns the frame it is given, calls nothing and
  logs nothing; and after any call of any Pipeline the receiver, so its tuple of
  transforms, is what it was before.
\<close>

theorem Pipeline_of_nothing:
  "snd (Pipeline_call (Pipeline []) t) = \<lparr>invoked = [], logged = [], outcome = Inr t\<rparr>
   \<and> fst (Pipeline_call p t) = p
   \<and> transforms (fst (Pipeline_call p t)) = transforms p"
  by (simp add: Pipeline_call_def Pipeline_def Let_def)

theorem Pipeline_of_nothing_witness:
  "snd (Pipeline_call (Pipeline []) frame_abc) = \<lparr>invoked = [], logged = [], outcome = Inr frame_abc\<rparr>
   \<and> transforms (fst (Pipeline_call (Pipeline [DropAll, FixedRow]) frame_abc)) = [DropAll, FixedRow]"
  using Pipeline_of_nothing [of frame_abc "Pipeline [DropAll, FixedRow]"]
  by (simp add: Pipeline_def)

text \<open>
  Claim C4 says that a Pipeline applied to an empty frame returns that frame and invokes
  none of its steps, as the docstring of \<open>Pipeline.__call__\<close> has it (the pipeline
  runs while the data is not empty). The loop tests emptiness only after a call: on
  the frame with no row, \<open>Pipeline(FixedRow, BaseTransform)\<close> calls its first
  transform on the empty frame and, the result having a row, its second too, and returns
  the one-row frame.
\<close>

theorem Pipeline_on_empty_runs_steps:
  "empty frame_no_rows
   \<and> outcome (snd (Pipeline_call (Pipeline [FixedRow, BaseTransform]) frame_no_rows)) = Inr frame_one_row
   \<and> frame_one_row \<noteq> frame_no_rows
   \<and> invoked (snd (Pipeline_call (Pipeline [FixedRow, BaseTransform]) frame_no_rows)) =
       [(0, frame_no_rows), (1, frame_one_row)]"
  by (simp add: Pipeline_call_def Pipeline_def FixedRow_def BaseTransform_def empty_def
      frame_no_rows_def frame_one_row_def)

section \<open>BaseData: derived construction and queries\<close>

lemma from_dataframe_given:
  "from_dataframe c frame (Some cols) None None st = BaseData_init c frame (Some cols) False st"
  by (simp add: from_dataframe_def)

lemma new_data_cases:
  "new_data self frame st =
     (if list_all (column_ok frame) (schema_columns (data_schema (columns_of self)))
      then (Inr \<lparr>data_cls = data_cls self, columns_of = columns_of self, data = frame\<rparr>, st)
      else (Inl SchemaError, st))"
  by (simp add: new_data_def from_dataframe_def BaseData_init_def validate_data_cases)

text \<open>
  Claim C9. \<open>new_data\<close> constructs through \<open>from_dataframe\<close> with \<open>skip_check\<close> at its
  default, so the frame given is validated against the schema of the receiver's Columns
  instance: a frame that violates it raises SchemaError, a frame that satisfies it gives
  a BaseData of the receiver's class over that frame. Whatever BaseData is returned holds
  the receiver's Columns instance itself (same identity, class and fields).
  \<open>transform\<close> does the same with the frame the transform returns, and raises what the
  transform raises.
\<close>

theorem new_data_revalidates:
  "(\<not> list_all (column_ok frame) (schema_columns (data_schema (columns_of self))) \<longrightarrow>
      new_data self frame st = (Inl SchemaError, st))
   \<and> (list_all (column_ok frame) (schema_columns (data_schema (columns_of self))) \<longrightarrow>
      new_data self frame st =
        (Inr \<lparr>data_cls = data_cls self, columns_of = columns_of self, data = frame\<rparr>, st))
   \<and> (\<forall>new st'. new_data self frame st = (Inr new, st') \<longrightarrow>
        columns_of new = columns_of self \<and> validate_data (columns_of self) frame = Inr ())
   \<and> (call t (data self) = Inr frame \<longrightarrow> transform_data self t st = new_data self frame st)
   \<and> (call t (data self) = Inl e \<longrightarrow> transform_data self t st = (Inl e, st))"
  by (auto simp: new_data_cases validate_data_cases transform_data_def from_dataframe_def
      BaseData_init_def split: if_splits)

lemma frame_na_violates:
  "\<not> list_all (column_ok frame_na) (schema_columns (data_schema test_columns))"
  by (simp add: test_columns_schema column_ok_def frame_na_def)

lemma frame_abc_satisfies:
  "list_all (column_ok frame_abc) (schema_columns (data_schema test_columns))"
  by (simp add: test_columns_schema column_ok_def frame_abc_def)

theorem new_data_revalidates_witness:
  "\<not> list_all (column_ok frame_na) (schema_columns (data_schema test_columns))
   \<and> new_data \<lparr>data_cls = TestData, columns_of = test_columns, data = frame_abc\<rparr> frame_na test_state
       = (Inl SchemaError, test_state)
   \<and> list_all (column_ok frame_abc) (schema_columns (data_schema test_columns))
   \<and> new_data \<lparr>data_cls = TestData, columns_of = test_columns, data = frame_na\<rparr> frame_abc test_state
       = (Inr \<lparr>data_cls = TestData, columns_of = test_columns, data = frame_abc\<rparr>, test_state)
   \<and> call FillNaTransform frame_abc = Inr frame_abc
   \<and> transform_data \<lparr>data_cls = TestData, columns_of = test_columns, data = frame_abc\<rparr> FillNaTransform test_state
       = (Inr \<lparr>data_cls = TestData, columns_of = test_columns, data = frame_abc\<rparr>, test_state)"
proof -
  note a = frame_na_violates
  note b = frame_abc_satisfies
  have c: "call FillNaTransform frame_abc = Inr frame_abc"
    by (simp add: FillNaTransform_def frame_abc_def)
  show ?thesis
    using a b c
      new_data_revalidates [where frame = frame_na and st = test_state and t = FillNaTransform
        and self = "\<lparr>data_cls = TestData, columns_of = test_columns, data = frame_abc\<rparr>"]
      new_data_revalidates [where frame = frame_abc and st = test_state and t = FillNaTransform
        and self = "\<lparr>data_cls = TestData, columns_of = test_columns, data = frame_na\<rparr>"]
      new_data_revalidates [where frame = frame_abc and st = test_state and t = FillNaTransform
        and self = "\<lparr>data_cls = TestData, columns_of = test_columns, data = frame_abc\<rparr>"]
    by simp
qed

subsection \<open>Selecting columns by label\<close>

lemma filter_label_unique:
  "distinct (map fst xs) \<Longrightarrow> n \<in> set (map fst xs) \<Longrightarrow>
   filter (\<lambda>(m, cells). m = n) xs = [(n, the (map_of xs n))]"
proof (induction xs)
  case Nil
  then show ?case by simp
next
  case (Cons x xs)
  obtain m cells where x: "x = (m, cells)" by (cases x)
  show ?case
  proof (cases "m = n")
    case True
    then have "n \<notin> fst ` set xs" using Cons.prems(1) x by simp
    then have "filter (\<lambda>(m, cells). m = n) xs = []"
      by (force simp: filter_empty_conv)
    then show ?thesis using True x by simp
  next
    case False
    then show ?thesis using Cons x by auto
  qed
qed

lemma getitem_list_unique:
  assumes "distinct (column_names df)" "set names \<subseteq> set (column_names df)"
  shows "getitem_list df names =
     Inr \<lparr>index_len = index_len df, df_columns = map (\<lambda>n. (n, cells_of df n)) names\<rparr>"
proof -
  have "concat (map (\<lambda>n. filter (\<lambda>(m, cells). m = n) (df_columns df)) names) =
        map (\<lambda>n. (n, cells_of df n)) names"
    using assms(2)
  proof (induction names)
    case Nil
    then show ?case by simp
  next
    case (Cons n names)
    have n: "n \<in> set (map fst (df_columns df))" using Cons.prems by (simp add: column_names_def)
    then have "map_of (df_columns df) n \<noteq> None" by (simp add: map_of_eq_None_iff)
    then have "the (map_of (df_columns df) n) = cells_of df n"
      by (auto simp: cells_of_def)
    with filter_label_unique [OF assms(1) [unfolded column_names_def] n] Cons show ?case
      by simp
  qed
  moreover have "\<not> (\<exists>n \<in> set names. n \<notin> set (column_names df))" using assms(2) by auto
  ultimately show ?thesis by (simp add: getitem_list_def)
qed

text \<open>
  Claim C5. For a BaseData whose frame has at least one row (and unique labels) and a
  list of labels of the frame, \<open>get_values_presence\<close> returns, for each label of the
  list in order, the number of cells of that column that are not missing divided by the
  number of rows. On the test frame with one missing value among the three of
  \<open>Name B\<close> the value is 2/3.
\<close>

theorem get_values_presence_ratio:
  assumes "0 < index_len (data self)"
    and "distinct (column_names (data self))"
    and "set names \<subseteq> set (column_names (data self))"
  shows "get_values_presence self names =
     Inr (map (\<lambda>n. (n, Finite (of_nat (notna_count (data self) n) / of_nat (index_len (data self))))) names)"
  using assms(1)
  by (simp add: get_values_presence_def getitem_list_unique [OF assms(2,3)] notna_sum_def
      series_div_def notna_count_def comp_def)

theorem get_values_presence_ratio_witness:
  "0 < index_len frame_na \<and> distinct (column_names frame_na)
   \<and> set [''Name B''] \<subseteq> set (column_names frame_na)
   \<and> get_values_presence \<lparr>data_cls = TestData, columns_of = test_columns, data = frame_na\<rparr> [''Name B'']
       = Inr [(''Name B'', Finite (2 / 3))]"
proof -
  let ?d = "\<lparr>data_cls = TestData, columns_of = test_columns, data = frame_na\<rparr>"
  have a: "0 < index_len (data ?d)" by (simp add: frame_na_def)
  have b: "distinct (column_names (data ?d))" by (simp add: column_names_def frame_na_def)
  have c: "set [''Name B''] \<subseteq> set (column_names (data ?d))"
    by (simp add: column_names_def frame_na_def)
  have k: "notna_count frame_na ''Name B'' = 2"
    by (simp add: notna_count_def cells_of_def frame_na_def)
  have n: "index_len frame_na = 3" by (simp add: frame_na_def)
  show ?thesis
    using a b c get_values_presence_ratio [OF a b c] by (simp add: k n)
qed

text \<open>
  Claim C6 says that on a frame with no row \<open>get_values_presence\<close> fails with a
  division-by-zero error. The quotient is the engine's, a Series divided by a number,
  where a zero divisor raises nothing: on the test columns with no row the call returns
  not-a-number for \<open>Name B\<close>.
\<close>

theorem get_values_presence_no_rows_counterexample:
  "index_len frame_no_rows = 0
   \<and> get_values_presence \<lparr>data_cls = TestData, columns_of = test_columns, data = frame_no_rows\<rparr> [''Name B'']
       = Inr [(''Name B'', NaN)]
   \<and> get_values_presence \<lparr>data_cls = TestData, columns_of = test_columns, data = frame_no_rows\<rparr> [''Name B'']
       \<noteq> Inl ZeroDivisionError"
  by (simp add: get_values_presence_def getitem_list_def notna_sum_def series_div_def
      column_names_def frame_no_rows_def)

text \<open>On a well-formed frame every column is as long as the index.\<close>

lemma cells_of_length:
  "wf_dataframe df \<Longrightarrow> n \<in> set (column_names df) \<Longrightarrow> length (cells_of df n) = index_len df"
proof -
  assume wf: "wf_dataframe df" and n: "n \<in> set (column_names df)"
  from n have "n \<in> fst ` set (df_columns df)" by (simp add: column_names_def)
  then have "map_of (df_columns df) n \<noteq> None" by (simp add: map_of_eq_None_iff)
  then obtain cells where c: "map_of (df_columns df) n = Some cells" by auto
  then have "(n, cells) \<in> set (df_columns df)" by (rule map_of_SomeD)
  then have "length cells = index_len df"
    using wf by (auto simp: wf_dataframe_def list_all_iff)
  then show ?thesis by (simp add: cells_of_def c)
qed

text \<open>
  Claim C6, amended. For a BaseData whose (well-formed) frame has no row and a list of
  labels of the frame, \<open>get_values_presence\<close> raises no division-by-zero error: it
  returns not-a-number, 0/0, for each label of the list.
\<close>

theorem get_values_presence_no_rows:
  assumes "index_len (data self) = 0"
    and "wf_dataframe (data self)"
    and "set names \<subseteq> set (column_names (data self))"
  shows "get_values_presence self names = Inr (map (\<lambda>n. (n, NaN)) names)
     \<and> get_values_presence self names \<noteq> Inl ZeroDivisionError"
proof -
  have d: "distinct (column_names (data self))" using assms(2) by (simp add: wf_dataframe_def)
  have "\<forall>n \<in> set names. cells_of (data self) n = []"
    using cells_of_length [OF assms(2)] assms(1,3) by auto
  then have "map (\<lambda>n. (n, series_div (length (filter (\<lambda>c. c \<noteq> NA) (cells_of (data self) n))) 0)) names
      = map (\<lambda>n. (n, NaN)) names"
    by (simp add: series_div_def)
  then show ?thesis
    by (simp add: get_values_presence_def getitem_list_unique [OF d assms(3)] notna_sum_def
        comp_def assms(1))
qed

theorem get_values_presence_no_rows_witness:
  "index_len frame_no_rows = 0 \<and> wf_dataframe frame_no_rows
   \<and> set [''Name B'', ''Name A''] \<subseteq> set (column_names frame_no_rows)
   \<and> get_values_presence \<lparr>data_cls = TestData, columns_of = test_columns, data = frame_no_rows\<rparr>
        [''Name B'', ''Name A''] = Inr [(''Name B'', NaN), (''Name A'', NaN)]
   \<and> get_values_presence \<lparr>data_cls = TestData, columns_of = test_columns, data = frame_no_rows\<rparr>
        [''Name B'', ''Name A''] \<noteq> Inl ZeroDivisionError"
proof -
  let ?d = "\<lparr>data_cls = TestData, columns_of = test_columns, data = frame_no_rows\<rparr>"
  have a: "index_len (data ?d) = 0" by (simp add: frame_no_rows_def)
  have b: "wf_dataframe (data ?d)" by (simp add: wf_dataframe_def column_names_def frame_no_rows_def)
  have c: "set [''Name B'', ''Name A''] \<subseteq> set (column_names (data ?d))"
    by (simp add: column_names_def frame_no_rows_def)
  show ?thesis
    using a b c get_values_presence_no_rows [OF a b c] by simp
qed

subsection \<open>Truncating to the declared columns\<close>

lemma map_of_selection:
  "n \<in> set names \<Longrightarrow> map_of (map (\<lambda>n. (n, f n)) names) n = Some (f n)"
  by (induction names) auto

lemma column_ok_selection:
  assumes "column_ok df (name, col)" and "name \<in> set names"
  shows "column_ok \<lparr>index_len = k, df_columns = map (\<lambda>n. (n, cells_of df n)) names\<rparr> (name, col)"
  using assms
  by (auto simp: column_ok_def map_of_selection cells_of_def split: option.splits)

lemma validate_data_selection:
  assumes "validate_data cols df = Inr ()"
    and "fst ` set (schema_columns (data_schema cols)) \<subseteq> set names"
  shows "validate_data cols \<lparr>index_len = k, df_columns = map (\<lambda>n. (n, cells_of df n)) names\<rparr> = Inr ()"
proof -
  have ok: "list_all (column_ok df) (schema_columns (data_schema cols))"
    using assms(1) by (simp add: validate_data_cases split: if_splits)
  have "list_all (column_ok \<lparr>index_len = k, df_columns = map (\<lambda>n. (n, cells_of df n)) names\<rparr>)
          (schema_columns (data_schema cols))"
    unfolding list_all_iff
  proof
    fix entry assume e: "entry \<in> set (schema_columns (data_schema cols))"
    obtain name col where nc: "entry = (name, col)" by (cases entry)
    have "name \<in> set names" using assms(2) e nc by force
    moreover have "column_ok df (name, col)" using ok e nc by (simp add: list_all_iff)
    ultimately show "column_ok \<lparr>index_len = k, df_columns = map (\<lambda>n. (n, cells_of df n)) names\<rparr> entry"
      unfolding nc by (rule column_ok_selection [rotated])
  qed
  then show ?thesis by (simp add: validate_data_cases)
qed

text \<open>
  Claim C7 says that \<open>truncate_columns\<close> returns a BaseData for every BaseData whose
  frame holds all the declared columns. The test frame with a missing value in
  \<open>Name B\<close> holds both declared columns and is the frame of a BaseData constructed with
  \<open>skip_check=True\<close>; \<open>truncate_columns\<close> on it raises SchemaError, since
  \<open>new_data\<close> validates the selection.
\<close>

theorem truncate_columns_counterexample:
  "BaseData_init TestData frame_na (Some test_columns) True test_state =
     (Inr \<lparr>data_cls = TestData, columns_of = test_columns, data = frame_na\<rparr>,
      \<lparr>next_id = 1, warnings = [(''UserWarning'', ''Data check skipped TestData.'')]\<rparr>)
   \<and> set (get_names test_columns) \<subseteq> set (column_names frame_na)
   \<and> truncate_columns \<lparr>data_cls = TestData, columns_of = test_columns, data = frame_na\<rparr> test_state
       = (Inl SchemaError, test_state)"
  by (simp add: BaseData_init_def warn_def test_state_def TestData_def
      truncate_columns_def getitem_list_def new_data_cases test_columns_schema column_ok_def
      get_names_def dump_column_names_def test_columns_def [THEN arg_cong, of field_values]
      column_names_def frame_na_def)

text \<open>
  Claim C7, amended. For a BaseData whose frame has unique labels and holds every
  physical name of its Columns instance, possibly with further columns:
  \<open>truncate_columns\<close> selects the columns of those names, in the order of the names,
  with the index and the cells they have in the frame, and constructs through
  \<open>new_data\<close>, which validates the selection. When the selection satisfies the
  schema, the result is a BaseData of the same class and the same Columns instance over
  the selection; otherwise SchemaError. The selection satisfies the schema whenever the
  frame does and the schema declares no column beyond the physical names. The receiver
  is passed by value and no state changes.
\<close>

theorem truncate_columns_selects:
  assumes "set (get_names (columns_of self)) \<subseteq> set (column_names (data self))"
    and "distinct (column_names (data self))"
  shows "column_names (truncated self) = get_names (columns_of self)
     \<and> index_len (truncated self) = index_len (data self)
     \<and> (\<forall>n \<in> set (get_names (columns_of self)). cells_of (truncated self) n = cells_of (data self) n)
     \<and> truncate_columns self st =
         (if validate_data (columns_of self) (truncated self) = Inr ()
          then (Inr \<lparr>data_cls = data_cls self, columns_of = columns_of self, data = truncated self\<rparr>, st)
          else (Inl SchemaError, st))
     \<and> (validate_data (columns_of self) (data self) = Inr ()
          \<and> fst ` set (schema_columns (data_schema (columns_of self))) \<subseteq> set (get_names (columns_of self))
        \<longrightarrow> truncate_columns self st =
          (Inr \<lparr>data_cls = data_cls self, columns_of = columns_of self, data = truncated self\<rparr>, st))"
proof -
  have sel: "getitem_list (data self) (get_names (columns_of self)) = Inr (truncated self)"
    by (simp add: getitem_list_unique [OF assms(2,1)] truncated_def)
  have run: "truncate_columns self st =
         (if validate_data (columns_of self) (truncated self) = Inr ()
          then (Inr \<lparr>data_cls = data_cls self, columns_of = columns_of self, data = truncated self\<rparr>, st)
          else (Inl SchemaError, st))"
    by (simp add: truncate_columns_def sel new_data_cases validate_data_cases)
  have names: "column_names (truncated self) = get_names (columns_of self)"
    by (simp add: column_names_def truncated_def comp_def)
  have cells: "\<forall>n \<in> set (get_names (columns_of self)). cells_of (truncated self) n = cells_of (data self) n"
  proof
    fix n assume "n \<in> set (get_names (columns_of self))"
    then have "map_of (df_columns (truncated self)) n = Some (cells_of (data self) n)"
      by (simp add: truncated_def map_of_selection)
    then show "cells_of (truncated self) n = cells_of (data self) n"
      by (simp add: cells_of_def [of "truncated self"])
  qed
  have idx: "index_len (truncated self) = index_len (data self)"
    by (simp add: truncated_def)
  have valid: "validate_data (columns_of self) (truncated self) = Inr ()"
    if "validate_data (columns_of self) (data self) = Inr ()"
      and "fst ` set (schema_columns (data_schema (columns_of self))) \<subseteq> set (get_names (columns_of self))"
    using validate_data_selection [OF that] by (simp add: truncated_def)
  show ?thesis
  proof (intro conjI impI)
    show "column_names (truncated self) = get_names (columns_of self)" by (rule names)
    show "index_len (truncated self) = index_len (data self)" by (rule idx)
    show "\<forall>n \<in> set (get_names (columns_of self)). cells_of (truncated self) n = cells_of (data self) n"
      by (rule cells)
    show "truncate_columns self st =
         (if validate_data (columns_of self) (truncated self) = Inr ()
          then (Inr \<lparr>data_cls = data_cls self, columns_of = columns_of self, data = truncated self\<rparr>, st)
          else (Inl SchemaError, st))" by (rule run)
    assume "validate_data (columns_of self) (data self) = Inr ()
          \<and> fst ` set (schema_columns (data_schema (columns_of self))) \<subseteq> set (get_names (columns_of self))"
    then have "validate_data (columns_of self) (truncated self) = Inr ()" using valid by blast
    then show "truncate_columns self st =
          (Inr \<lparr>data_cls = data_cls self, columns_of = columns_of self, data = truncated self\<rparr>, st)"
      by (simp add: run)
  qed
qed

lemma test_columns_names: "get_names test_columns = [''Name A'', ''Name B'']"
  by (simp add: get_names_def dump_column_names_def test_columns_def)

theorem truncate_columns_selects_witness:
  "set (get_names test_columns) \<subseteq> set (column_names frame_extra)
   \<and> distinct (column_names frame_extra)
   \<and> validate_data test_columns frame_extra = Inr ()
   \<and> fst ` set (schema_columns (data_schema test_columns)) \<subseteq> set (get_names test_columns)
   \<and> truncated \<lparr>data_cls = TestData, columns_of = test_columns, data = frame_extra\<rparr> = frame_abc
   \<and> column_names frame_abc = [''Name A'', ''Name B'']
   \<and> truncate_columns \<lparr>data_cls = TestData, columns_of = test_columns, data = frame_extra\<rparr> test_state
       = (Inr \<lparr>data_cls = TestData, columns_of = test_columns, data = frame_abc\<rparr>, test_state)"
proof -
  let ?d = "\<lparr>data_cls = TestData, columns_of = test_columns, data = frame_extra\<rparr>"
  have a: "set (get_names (columns_of ?d)) \<subseteq> set (column_names (data ?d))"
    by (simp add: test_columns_names column_names_def frame_extra_def)
  have b: "distinct (column_names (data ?d))"
    by (simp add: column_names_def frame_extra_def)
  have v: "validate_data test_columns frame_extra = Inr ()"
    by (simp add: validate_data_cases test_columns_schema column_ok_def frame_extra_def)
  have s: "fst ` set (schema_columns (data_schema test_columns)) \<subseteq> set (get_names test_columns)"
    by (simp add: test_columns_schema test_columns_names)
  have t: "truncated ?d = frame_abc"
    by (simp add: truncated_def test_columns_names cells_of_def frame_extra_def frame_abc_def)
  have n: "column_names frame_abc = [''Name A'', ''Name B'']"
    by (simp add: column_names_def frame_abc_def)
  have vt: "validate_data test_columns frame_abc = Inr ()"
    by (simp add: validate_data_cases test_columns_schema column_ok_def frame_abc_def)
  show ?thesis
    using a b v s truncate_columns_selects [OF a b, of test_state]
    by (simp add: t n vt)
qed

section \<open>The tests of the repository, on the model\<close>

text \<open>
  The four tests of tests/test\_data.py: the default instance and its names, the valid
  frame of shape (3, 2), the frame with a missing value refused, and the same frame
  accepted once \<open>Pipeline(FillNaTransform())\<close> has filled it.
\<close>

lemma test_columns_default:
  "Columns_init TestColumns \<lparr>next_id = 0, warnings = []\<rparr> = (Inr test_columns, test_state)"
  by (simp add: Columns_init_def model_validate_def TestColumns_def test_columns_def test_state_def)

lemma test_columns_names_set:
  "set (get_names test_columns) = {''Name A'', ''Name B''}"
  by (simp add: test_columns_names)

lemma test_safe_dataframe:
  "\<exists>test_data. BaseData_init TestData frame_abc (Some test_columns) False test_state = (Inr test_data, test_state)
     \<and> shape (data test_data) = (3, 2)"
proof -
  have "shape frame_abc = (3, 2)" by (simp add: shape_def frame_abc_def)
  then show ?thesis
    by (simp add: BaseData_init_def validate_data_cases frame_abc_satisfies)
qed

lemma test_safe_dataframe_fail:
  "BaseData_init TestData frame_na (Some test_columns) False test_state = (Inl SchemaError, test_state)"
  by (simp add: BaseData_init_def validate_data_cases frame_na_violates)

lemma test_safe_dataframe_transform:
  "\<exists>test_data. from_dataframe TestData frame_na (Some test_columns)
       (Some (Pipeline_transform (Pipeline [FillNaTransform]))) None test_state = (Inr test_data, test_state)
     \<and> shape (data test_data) = (3, 2)"
  by (simp add: from_dataframe_def Pipeline_transform_def Pipeline_call_def Pipeline_def
      FillNaTransform_def empty_def BaseData_init_def validate_data_cases test_columns_schema
      column_ok_def shape_def frame_na_def)

end
